theory Spec2Isabelle
  imports Complex_Main
begin

section \<open>Errors\<close>

text \<open>
  The exceptions the module can raise: \<open>IndexError\<close> from \<open>_idx_to_slice\<close>,
  \<open>ZeroDivisionError\<close> from the float divisions in \<open>zoom_to\<close> and in the constructor of
  \<open>GeoboxTiles\<close>, and \<open>OverflowError\<close> from the conversions between integers and floats
  in that constructor.
\<close>

datatype error = IndexError | ZeroDivisionError | OverflowError

section \<open>Affine transforms\<close>

text \<open>
  \<open>Affine\<close> comes from the external \<open>affine\<close> package. \<open>Affine a b c d e f\<close> is the map
  \<open>x' = a*x + b*y + c\<close>, \<open>y' = d*x + e*y + f\<close>. The coefficients of a transform are modelled as reals, so
  every statement about a transform is a statement in exact arithmetic.
\<close>

datatype Affine = Affine real real real real real real

fun Affine_mul :: "Affine \<Rightarrow> Affine \<Rightarrow> Affine" where
  "Affine_mul (Affine sa sb sc sd se sf) (Affine oa ob oc od oe ofs) =
     Affine (sa * oa + sb * od) (sa * ob + sb * oe) (sa * oc + sb * ofs + sc)
            (sd * oa + se * od) (sd * ob + se * oe) (sd * oc + se * ofs + sf)"

instantiation Affine :: times
begin
definition times_Affine :: "Affine \<Rightarrow> Affine \<Rightarrow> Affine" where
  "times_Affine = Affine_mul"
instance ..
end

text \<open>\<open>A * (vx, vy)\<close> in Python: the transform applied to a point.\<close>

fun Affine_apply :: "Affine \<Rightarrow> real \<times> real \<Rightarrow> real \<times> real" where
  "Affine_apply (Affine sa sb sc sd se sf) (vx, vy) =
     (vx * sa + vy * sb + sc, vx * sd + vy * se + sf)"

definition Affine_translation :: "real \<Rightarrow> real \<Rightarrow> Affine" where
  "Affine_translation xoff yoff = Affine 1 0 xoff 0 1 yoff"

definition Affine_scale :: "real \<Rightarrow> real \<Rightarrow> Affine" where
  "Affine_scale sx sy = Affine sx 0 0 0 sy 0"

text \<open>\<open>Affine.rotation(angle, pivot)\<close>: counter-clockwise by \<open>angle\<close> degrees about \<open>pivot\<close>.\<close>

fun Affine_rotation :: "real \<Rightarrow> real \<times> real \<Rightarrow> Affine" where
  "Affine_rotation angle (px, py) =
     (let ca = cos (angle * pi / 180); sa = sin (angle * pi / 180)
      in Affine ca (- sa) (px - px * ca + py * sa)
                sa ca (py - px * sa - py * ca))"

section \<open>GeoBox\<close>

text \<open>
  Modelled from the spec: the class \<open>GeoBox\<close> of \<open>datacube/utils/geometry/_base.py\<close>, which
  \<open>gbox.py\<close> imports. A grid box couples a pixel shape (height, width), an affine transform
  and a CRS tag; it is built as \<open>GeoBox(width, height, affine, crs)\<close>; \<open>shape\<close> reads
  (height, width); \<open>transform\<close> and \<open>affine\<close> read the same affine map.
\<close>

record 'crs GeoBox =
  height :: int
  width :: int
  affine :: Affine
  crs :: 'crs

definition GeoBox_init :: "int \<Rightarrow> int \<Rightarrow> Affine \<Rightarrow> 'crs \<Rightarrow> 'crs GeoBox" where
  "GeoBox_init w h A c = \<lparr>height = h, width = w, affine = A, crs = c\<rparr>"

definition shape :: "'crs GeoBox \<Rightarrow> int \<times> int" where
  "shape g = (height g, width g)"

definition transform :: "'crs GeoBox \<Rightarrow> Affine" where
  "transform g = affine g"

text \<open>A Python \<open>slice(start, stop)\<close> with no step.\<close>

datatype slice = Slice int int

text \<open>
  Modelled from the spec: the region slicing \<open>GeoBox.__getitem__\<close> of
  \<open>datacube/utils/geometry/_base.py\<close>. \<open>box[row_slice, col_slice]\<close> returns a new grid box
  covering the pixel sub-rectangle described by the two slices, with a correspondingly
  translated transform and unchanged CRS.
\<close>

fun GeoBox_getitem :: "'crs GeoBox \<Rightarrow> slice \<times> slice \<Rightarrow> 'crs GeoBox" where
  "GeoBox_getitem g (Slice r0 r1, Slice c0 c1) =
     GeoBox_init (c1 - c0) (r1 - r0)
       (affine g * Affine_translation (real_of_int c0) (real_of_int r0)) (crs g)"

section \<open>Transform functions\<close>

definition flipy :: "'crs GeoBox \<Rightarrow> 'crs GeoBox" where
  "flipy g =
     (let (H, W) = shape g;
          A = Affine_translation 0 (real_of_int H) * Affine_scale 1 (- 1);
          A = affine g * A
      in GeoBox_init W H A (crs g))"

definition flipx :: "'crs GeoBox \<Rightarrow> 'crs GeoBox" where
  "flipx g =
     (let (H, W) = shape g;
          A = Affine_translation (real_of_int W) 0 * Affine_scale (- 1) 1;
          A = affine g * A
      in GeoBox_init W H A (crs g))"

definition translate_pix :: "'crs GeoBox \<Rightarrow> real \<Rightarrow> real \<Rightarrow> 'crs GeoBox" where
  "translate_pix g tx ty =
     (let (H, W) = shape g;
          A = affine g * Affine_translation tx ty
      in GeoBox_init W H A (crs g))"


definition rotate :: "'crs GeoBox \<Rightarrow> real \<Rightarrow> 'crs GeoBox" where
  "rotate g deg =
     (let (h, w) = shape g;
          c0 = Affine_apply (transform g) (real_of_int w * 0.5, real_of_int h * 0.5);
          A = Affine_rotation deg c0 * transform g
      in GeoBox_init w h A (crs g))"

section \<open>GeoboxTiles\<close>

text \<open>
  The fields \<open>_gbox\<close>, \<open>_tile_shape\<close>, \<open>_shape\<close> and \<open>_cache\<close> of the class. The cache is a
  dictionary from (row, col) to the sub-box.
\<close>

record 'crs GeoboxTiles =
  tiles_gbox :: "'crs GeoBox"
  tiles_tile_shape :: "int \<times> int"
  tiles_shape :: "int \<times> int"
  tiles_cache :: "int \<times> int \<rightharpoonup> 'crs GeoBox"

subsection \<open>Float arithmetic of the constructor\<close>

text \<open>
  A Python float is an IEEE-754 binary64 number: 53 significant bits, exponents down to the
  subnormal spacing \<open>2^-1074\<close>, magnitudes below \<open>2^1024\<close>. A float is modelled as the real
  number it denotes, and every operation rounds its exact result to the nearest float, ties
  to the even significand.

  \<open>round_half_even\<close> rounds a real to the nearest integer, ties to even. \<open>ulp x\<close> is the
  spacing of the floats around \<open>x\<close>. \<open>round_double x\<close> is the float nearest to \<open>x\<close>, with
  no bound on the exponent from above; the callers test the overflow.
\<close>

definition round_half_even :: "real \<Rightarrow> int" where
  "round_half_even r =
     (let f = \<lfloor>r\<rfloor>; d = r - real_of_int f
      in if d < 1 / 2 then f
         else if 1 / 2 < d then f + 1
         else if even f then f else f + 1)"

definition ulp :: "real \<Rightarrow> real" where
  "ulp x = 2 powr real_of_int (max (\<lfloor>log 2 \<bar>x\<bar>\<rfloor> - 52) (- 1074))"

definition round_double :: "real \<Rightarrow> real" where
  "round_double x =
     (if x = 0 then 0 else real_of_int (round_half_even (x / ulp x)) * ulp x)"

text \<open>\<open>float(N)\<close> for an integer: correctly rounded, \<open>OverflowError\<close> when too large.\<close>

definition float_of_int :: "int \<Rightarrow> error + real" where
  "float_of_int N =
     (let x = round_double (real_of_int N)
      in if 2 ^ 1024 \<le> \<bar>x\<bar> then Inl OverflowError else Inr x)"

text \<open>
  \<open>a / n\<close> for a float \<open>a\<close> and an integer \<open>n\<close>: the integer is converted to a float, a
  zero divisor raises \<open>ZeroDivisionError\<close>, and the quotient is rounded.
\<close>

definition float_truediv :: "real \<Rightarrow> int \<Rightarrow> error + real" where
  "float_truediv a n =
     (case float_of_int n of
        Inl e \<Rightarrow> Inl e
      | Inr b \<Rightarrow>
          if b = 0 then Inl ZeroDivisionError else Inr (round_double (a / b)))"

text \<open>
  \<open>math.ceil(x)\<close> of a float is the exact integer ceiling; on a quotient that overflowed
  to infinity it raises \<open>OverflowError\<close>.
\<close>

definition math_ceil :: "real \<Rightarrow> error + int" where
  "math_ceil x = (if 2 ^ 1024 \<le> \<bar>x\<bar> then Inl OverflowError else Inr \<lceil>x\<rceil>)"

text \<open>\<open>math.ceil(float(N)/n)\<close>, as the constructor computes each component of \<open>_shape\<close>.\<close>

definition ceil_div :: "int \<Rightarrow> int \<Rightarrow> error + int" where
  "ceil_div N n =
     (case float_of_int N of
        Inl e \<Rightarrow> Inl e
      | Inr a \<Rightarrow>
          (case float_truediv a n of
             Inl e \<Rightarrow> Inl e
           | Inr q \<Rightarrow> math_ceil q))"

subsection \<open>The partitioner\<close>

definition GeoboxTiles_init :: "'crs GeoBox \<Rightarrow> int \<times> int \<Rightarrow> error + 'crs GeoboxTiles" where
  "GeoboxTiles_init box tshape =
     (let (H, W) = shape box;
          (th, tw) = tshape
      in case ceil_div H th of
           Inl e \<Rightarrow> Inl e
         | Inr nr \<Rightarrow>
             (case ceil_div W tw of
                Inl e \<Rightarrow> Inl e
              | Inr nc \<Rightarrow>
                  Inr \<lparr>tiles_gbox = box, tiles_tile_shape = tshape,
                       tiles_shape = (nr, nc), tiles_cache = Map.empty\<rparr>))"

text \<open>The inner function \<open>_slice(i, N, n)\<close> of \<open>_idx_to_slice\<close>.\<close>

definition slice_of :: "int \<Rightarrow> int \<Rightarrow> int \<Rightarrow> error + slice" where
  "slice_of i N n =
     (let start = i * n
      in if start \<ge> N then Inl IndexError
         else Inr (Slice start (min (start + n) N)))"

definition idx_to_slice :: "'crs GeoboxTiles \<Rightarrow> int \<times> int \<Rightarrow> error + slice \<times> slice" where
  "idx_to_slice t idx =
     (let (i0, i1) = idx;
          (H, W) = shape (tiles_gbox t);
          (th, tw) = tiles_tile_shape t
      in case slice_of i0 H th of
           Inl e \<Rightarrow> Inl e
         | Inr ir \<Rightarrow>
             (case slice_of i1 W tw of
                Inl e \<Rightarrow> Inl e
              | Inr ic \<Rightarrow> Inr (ir, ic)))"

text \<open>\<open>dict.setdefault(k, v)\<close>: the stored value when the key is present, else store \<open>v\<close>.\<close>

definition setdefault :: "('k \<rightharpoonup> 'v) \<Rightarrow> 'k \<Rightarrow> 'v \<Rightarrow> 'v \<times> ('k \<rightharpoonup> 'v)" where
  "setdefault m k v = (case m k of Some x \<Rightarrow> (x, m) | None \<Rightarrow> (v, m(k \<mapsto> v)))"

text \<open>
  \<open>GeoboxTiles.__getitem__\<close>: the result (or the exception) together with the partitioner
  after the call, whose cache may have grown.
\<close>

definition getitem ::
  "'crs GeoboxTiles \<Rightarrow> int \<times> int \<Rightarrow> (error + 'crs GeoBox) \<times> 'crs GeoboxTiles" where
  "getitem t idx =
     (case tiles_cache t idx of
        Some sub_gbox \<Rightarrow> (Inr sub_gbox, t)
      | None \<Rightarrow>
          (case idx_to_slice t idx of
             Inl e \<Rightarrow> (Inl e, t)
           | Inr roi \<Rightarrow>
               (let (r, cache') = setdefault (tiles_cache t) idx (GeoBox_getitem (tiles_gbox t) roi)
                in (Inr r, t\<lparr>tiles_cache := cache'\<rparr>))))"

text \<open>A sequence of lookups on one partitioner; a caller may catch a failed lookup and go on.\<close>

fun lookups :: "'crs GeoboxTiles \<Rightarrow> (int \<times> int) list \<Rightarrow> 'crs GeoboxTiles" where
  "lookups t [] = t"
| "lookups t (idx # rest) = lookups (snd (getitem t idx)) rest"

section \<open>Notions used by the properties\<close>

text \<open>
  The grid box recomputed fresh for an index, without the cache:
  \<open>self._gbox[self._idx_to_slice(idx)]\<close>.
\<close>

definition recompute :: "'crs GeoboxTiles \<Rightarrow> int \<times> int \<Rightarrow> error + 'crs GeoBox" where
  "recompute t idx =
     (case idx_to_slice t idx of
        Inl e \<Rightarrow> Inl e
      | Inr roi \<Rightarrow> Inr (GeoBox_getitem (tiles_gbox t) roi))"




text \<open>
  The concrete scenario of the specification: a source box of shape (100, 100), cut into
  tiles of shape (30, 30).
\<close>

definition example_box :: "unit GeoBox" where
  "example_box = GeoBox_init 100 100 (Affine 2 0 10 0 (- 2) 50) ()"

definition example_tiles :: "unit GeoboxTiles" where
  "example_tiles =
     \<lparr>tiles_gbox = example_box, tiles_tile_shape = (30, 30),
      tiles_shape = (4, 4), tiles_cache = Map.empty\<rparr>"





section \<open>Composition of affine transforms\<close>

lemma Affine_mul_assoc: "(A * B) * C = A * (B * (C::Affine))"
  by (cases A; cases B; cases C) (simp add: times_Affine_def algebra_simps)

lemma Affine_mul_identity: "A * Affine 1 0 0 0 1 0 = A"
  by (cases A) (simp add: times_Affine_def)

lemma flipx_step_twice:
  "Affine_translation w 0 * (Affine_scale (- 1) 1 * (Affine_translation w 0 * Affine_scale (- 1) 1))
     = Affine 1 0 0 0 1 0"
  by (simp add: times_Affine_def Affine_translation_def Affine_scale_def)

lemma flipy_step_twice:
  "Affine_translation 0 h * (Affine_scale 1 (- 1) * (Affine_translation 0 h * Affine_scale 1 (- 1)))
     = Affine 1 0 0 0 1 0"
  by (simp add: times_Affine_def Affine_translation_def Affine_scale_def)

lemma translation_compose:
  "Affine_translation a b * Affine_translation c d = Affine_translation (a + c) (b + d)"
  by (simp add: times_Affine_def Affine_translation_def)

section \<open>Properties of the transform functions\<close>

text \<open>
  C5. For every grid box of shape (H, W) with transform A and every angle, \<open>rotate\<close> returns a
  grid box with the same shape and the same CRS, whose transform is the rotation by that
  angle about the centre composed with A, the rotation on the left; the centre is A applied
  to the pixel point (W/2, H/2).
\<close>

theorem rotate_shape_crs_transform:
  "shape (rotate g deg) = shape g \<and> crs (rotate g deg) = crs g \<and>
   transform (rotate g deg) =
     Affine_rotation deg
       (Affine_apply (transform g)
          (real_of_int (snd (shape g)) / 2, real_of_int (fst (shape g)) / 2))
     * transform g"
  by (simp add: rotate_def shape_def transform_def GeoBox_init_def Let_def)



text \<open>
  C7. For every grid box, flipping twice along the same axis gives back a grid box of the
  same shape, the same CRS and the same transform: \<open>flipx\<close> and \<open>flipy\<close> are self-inverse
  (in exact arithmetic).
\<close>

theorem flip_involution:
  "shape (flipx (flipx g)) = shape g \<and> transform (flipx (flipx g)) = transform g
   \<and> crs (flipx (flipx g)) = crs g
   \<and> shape (flipy (flipy g)) = shape g \<and> transform (flipy (flipy g)) = transform g
   \<and> crs (flipy (flipy g)) = crs g"
  by (simp add: flipx_def flipy_def shape_def transform_def GeoBox_init_def Affine_mul_assoc
      flipx_step_twice flipy_step_twice Affine_mul_identity)

text \<open>
  C8. For every grid box and offsets, translating by (tx1, ty1) and then by (tx2, ty2) gives
  the same shape, CRS and transform as translating once by (tx1 + tx2, ty1 + ty2)
  (in exact arithmetic).
\<close>

theorem translate_pix_compose:
  "translate_pix (translate_pix g tx1 ty1) tx2 ty2 = translate_pix g (tx1 + tx2) (ty1 + ty2)
   \<and> shape (translate_pix (translate_pix g tx1 ty1) tx2 ty2)
       = shape (translate_pix g (tx1 + tx2) (ty1 + ty2))
   \<and> crs (translate_pix (translate_pix g tx1 ty1) tx2 ty2)
       = crs (translate_pix g (tx1 + tx2) (ty1 + ty2))
   \<and> transform (translate_pix (translate_pix g tx1 ty1) tx2 ty2)
       = transform (translate_pix g (tx1 + tx2) (ty1 + ty2))"
  by (simp add: translate_pix_def shape_def transform_def GeoBox_init_def Affine_mul_assoc
      translation_compose)

section \<open>Rounding to a float\<close>

lemma round_half_even_of_int: "round_half_even (real_of_int j) = j"
  by (simp add: round_half_even_def)

lemma round_half_even_error: "\<bar>real_of_int (round_half_even r) - r\<bar> \<le> 1 / 2"
  unfolding round_half_even_def Let_def
  by (auto simp: abs_le_iff)

lemma ulp_pos: "0 < ulp x"
  by (simp add: ulp_def)

lemma round_double_error: "\<bar>round_double x - x\<bar> \<le> ulp x / 2"
proof (cases "x = 0")
  case True
  then show ?thesis using ulp_pos [of 0] by (simp add: round_double_def)
next
  case False
  have "round_double x - x = (real_of_int (round_half_even (x / ulp x)) - x / ulp x) * ulp x"
    using False ulp_pos [of x] by (simp add: round_double_def algebra_simps)
  then have "\<bar>round_double x - x\<bar> = \<bar>real_of_int (round_half_even (x / ulp x)) - x / ulp x\<bar> * ulp x"
    using ulp_pos [of x] by (simp add: abs_mult)
  also have "\<dots> \<le> (1 / 2) * ulp x"
    using round_half_even_error [of "x / ulp x"] ulp_pos [of x]
    by (intro mult_right_mono) simp_all
  finally show ?thesis by simp
qed

lemma powr_floor_log_le:
  assumes "0 < x"
  shows "2 powr real_of_int \<lfloor>log 2 x\<rfloor> \<le> x"
proof -
  have "2 powr real_of_int \<lfloor>log 2 x\<rfloor> \<le> 2 powr log 2 x"
    by (simp add: of_int_floor_le)
  then show ?thesis using assms by simp
qed

lemma floor_log_bounds:
  assumes "2 powr real_of_int a \<le> x" and "x < 2 powr real_of_int b"
  shows "a \<le> \<lfloor>log 2 x\<rfloor> \<and> \<lfloor>log 2 x\<rfloor> < b"
proof -
  have x: "0 < x" using assms(1) by (rule less_le_trans [rotated]) simp
  have "real_of_int a \<le> log 2 x" using assms(1) x by (simp add: le_log_iff)
  moreover have "log 2 x < real_of_int b" using assms(2) x by (simp add: log_less_iff)
  ultimately show ?thesis by (simp add: le_floor_iff floor_less_iff)
qed

lemma round_double_int_exact:
  assumes "0 \<le> m" and "m < 2 ^ 53"
  shows "round_double (real_of_int m) = real_of_int m"
proof (cases "m = 0")
  case True
  then show ?thesis by (simp add: round_double_def)
next
  case False
  with assms(1) have pos: "0 < real_of_int m" by simp
  have one: "1 \<le> real_of_int m" using False assms(1) by simp
  have "2 powr real_of_int 0 \<le> real_of_int m" using one by simp
  moreover have "real_of_int m < 2 powr real_of_int 53"
  proof -
    have "real_of_int m < real_of_int (2 ^ 53)" using assms(2) by (simp only: of_int_less_iff)
    then have "real_of_int m < 2 ^ 53" by (simp only: of_int_power of_int_numeral)
    then show ?thesis by (simp add: powr_numeral)
  qed
  ultimately have e: "0 \<le> \<lfloor>log 2 (real_of_int m)\<rfloor> \<and> \<lfloor>log 2 (real_of_int m)\<rfloor> < 53"
    by (rule floor_log_bounds)
  define k where "k = nat (52 - \<lfloor>log 2 (real_of_int m)\<rfloor>)"
  have "max (\<lfloor>log 2 \<bar>real_of_int m\<bar>\<rfloor> - 52) (- 1074) = - int k"
    using e pos by (simp add: k_def)
  then have u: "ulp (real_of_int m) = 1 / 2 ^ k"
    by (simp add: ulp_def powr_minus_divide powr_realpow)
  have "real_of_int m / ulp (real_of_int m) = real_of_int (m * 2 ^ k)"
    by (simp add: u)
  then have "round_half_even (real_of_int m / ulp (real_of_int m)) = m * 2 ^ k"
    by (simp only: round_half_even_of_int)
  then show ?thesis
    using False by (simp add: round_double_def u)
qed

lemma ulp_le:
  assumes "2 powr (- 1022) \<le> x"
  shows "ulp x \<le> x / 2 ^ 52"
proof -
  have x: "0 < x" using assms by (rule less_le_trans [rotated]) simp
  have "2 powr real_of_int (- 1022) \<le> x" using assms by simp
  moreover have "x < 2 powr real_of_int (\<lfloor>log 2 x\<rfloor> + 1)"
    using x by (simp add: less_powr_iff)
  ultimately have "- 1022 \<le> \<lfloor>log 2 x\<rfloor>"
    using floor_log_bounds [of "- 1022" x "\<lfloor>log 2 x\<rfloor> + 1"] by simp
  then have "max (\<lfloor>log 2 x\<rfloor> - 52) (- 1074) = \<lfloor>log 2 x\<rfloor> - 52"
    by linarith
  moreover have "\<bar>x\<bar> = x" using x by simp
  ultimately have "ulp x = 2 powr (real_of_int \<lfloor>log 2 x\<rfloor> - 52)"
    by (simp only: ulp_def of_int_diff of_int_numeral)
  also have "\<dots> = 2 powr real_of_int \<lfloor>log 2 x\<rfloor> / 2 ^ 52"
    by (simp add: powr_diff powr_numeral)
  also have "\<dots> \<le> x / 2 ^ 52"
    using powr_floor_log_le [OF x] by (simp add: divide_right_mono)
  finally show ?thesis .
qed

subsection \<open>Below \<open>2^53\<close> the constructor computes the exact ceiling\<close>

lemma of_int_less_2p53: "m < 2 ^ 53 \<Longrightarrow> real_of_int m < 2 ^ 53"
proof -
  assume "m < 2 ^ 53"
  then have "real_of_int m < real_of_int (2 ^ 53)" by (simp only: of_int_less_iff)
  then show ?thesis by (simp only: of_int_power of_int_numeral)
qed

lemma float_of_int_exact:
  assumes "0 \<le> m" and "m < 2 ^ 53"
  shows "float_of_int m = Inr (real_of_int m)"
proof -
  have "real_of_int m < 2 ^ 53"
    using assms(2) by (rule of_int_less_2p53)
  moreover have "(2::real) ^ 53 \<le> 2 ^ 1024" by (rule power_increasing) simp_all
  ultimately have "\<not> 2 ^ 1024 \<le> \<bar>real_of_int m\<bar>" using assms(1) by simp
  then show ?thesis
    by (simp only: float_of_int_def Let_def round_double_int_exact [OF assms] if_False)
qed

lemma zdiv_le_self_nonneg: "0 \<le> N \<Longrightarrow> 0 < n \<Longrightarrow> N div n \<le> (N::int)"
  using zdiv_mono2 [of N 1 n] by simp

lemma round_quotient_ceiling:
  assumes N: "0 \<le> N" "N < 2 ^ 53" and n: "0 < n" "n < 2 ^ 53"
  shows "\<lceil>round_double (real_of_int N / real_of_int n)\<rceil> = \<lceil>real_of_int N / real_of_int n\<rceil>
       \<and> \<bar>round_double (real_of_int N / real_of_int n)\<bar> \<le> 2 ^ 53"
proof (cases "N mod n = 0")
  case True
  then have "n dvd N" by (simp add: dvd_eq_mod_eq_0)
  then have q: "real_of_int N / real_of_int n = real_of_int (N div n)"
    by (simp add: real_of_int_div)
  have k: "0 \<le> N div n" "N div n < 2 ^ 53"
  proof -
    show "0 \<le> N div n" using N(1) n(1) by (simp add: pos_imp_zdiv_nonneg_iff)
    have "N div n \<le> N" using N(1) n(1) by (rule zdiv_le_self_nonneg)
    then show "N div n < 2 ^ 53" using N(2) by simp
  qed
  have r: "round_double (real_of_int (N div n)) = real_of_int (N div n)"
    using k by (rule round_double_int_exact)
  have "real_of_int (N div n) < 2 ^ 53"
    using k(2) by (rule of_int_less_2p53)
  then have "\<bar>real_of_int (N div n)\<bar> \<le> 2 ^ 53" using k(1) by simp
  then show ?thesis by (simp only: q r)
next
  case False
  define q where "q = real_of_int N / real_of_int n"
  define k where "k = N div n"
  define r where "r = N mod n"
  have rn: "1 \<le> r" "r \<le> n - 1"
    using False n(1) pos_mod_sign [of n N] pos_mod_bound [of n N] unfolding r_def by linarith+
  have npos: "0 < real_of_int n" using n(1) by simp
  have "N = k * n + r" by (simp add: k_def r_def)
  then have "real_of_int N = real_of_int (k * n + r)" by simp
  then have "real_of_int N = real_of_int k * real_of_int n + real_of_int r"
    by (simp only: of_int_add of_int_mult)
  then have qk: "q = real_of_int k + real_of_int r / real_of_int n"
    using npos by (simp add: q_def field_simps)
  have inv: "1 / real_of_int n \<le> real_of_int r / real_of_int n"
    using rn(1) npos by (simp add: divide_right_mono)
  have inv': "real_of_int r / real_of_int n \<le> 1 - 1 / real_of_int n"
  proof -
    have "real_of_int r \<le> real_of_int n - 1" using rn(2) by linarith
    then have "real_of_int r / real_of_int n \<le> (real_of_int n - 1) / real_of_int n"
      using npos by (simp add: divide_right_mono)
    also have "\<dots> = 1 - 1 / real_of_int n" using npos by (simp add: field_simps)
    finally show ?thesis .
  qed
  have kpos: "0 \<le> real_of_int k"
    using N(1) n(1) by (simp add: k_def pos_imp_zdiv_nonneg_iff)
  have lo: "real_of_int k + 1 / real_of_int n \<le> q" using qk inv by simp
  have hi: "q \<le> real_of_int k + 1 - 1 / real_of_int n" using qk inv' by simp
  have n53: "real_of_int n < 2 ^ 53"
    using n(2) by (rule of_int_less_2p53)
  have N53: "real_of_int N < 2 ^ 53"
    using N(2) by (rule of_int_less_2p53)
  have qlow: "2 powr (- 1022) \<le> q"
  proof -
    have "(2::real) powr (- 1022) \<le> 2 powr (- 53)" by simp
    also have "\<dots> = 1 / 2 ^ 53" by (simp add: powr_minus_divide powr_numeral)
    also have "\<dots> \<le> 1 / real_of_int n"
      using n53 npos by (simp add: frac_le)
    also have "\<dots> \<le> q" using lo kpos by simp
    finally show ?thesis .
  qed
  have "ulp q / 2 \<le> q / 2 ^ 53"
    using ulp_le [OF qlow] by simp
  also have "\<dots> = real_of_int N / 2 ^ 53 / real_of_int n"
    by (simp add: q_def)
  also have "\<dots> < 1 / real_of_int n"
  proof (rule divide_strict_right_mono)
    show "real_of_int N / 2 ^ 53 < 1" using N53 by simp
    show "0 < real_of_int n" by (rule npos)
  qed
  finally have err: "\<bar>round_double q - q\<bar> < 1 / real_of_int n"
    using round_double_error [of q] by simp
  have dpos: "0 < 1 / real_of_int n" using npos by simp
  have f1: "real_of_int k < round_double q" using err lo by linarith
  have f2: "round_double q < real_of_int k + 1" using err hi by linarith
  have c1: "\<lceil>round_double q\<rceil> = k + 1"
    by (rule ceiling_unique) (use f1 f2 in simp_all)
  have c2: "\<lceil>q\<rceil> = k + 1"
  proof (rule ceiling_unique)
    have "real_of_int k < q" using lo dpos by linarith
    then show "real_of_int (k + 1) - 1 < q" by simp
    have "q \<le> real_of_int k + 1" using hi dpos by linarith
    then show "q \<le> real_of_int (k + 1)" by simp
  qed
  have "k \<le> N" using N(1) n(1) unfolding k_def by (rule zdiv_le_self_nonneg)
  then have "real_of_int k \<le> real_of_int N" by (simp only: of_int_le_iff)
  then have "real_of_int k < 2 ^ 53" using N53 by (rule le_less_trans)
  then have "round_double q < 2 ^ 53 + 1" using f2 by linarith
  moreover have "0 < round_double q" using f1 kpos by linarith
  moreover have "round_double q \<le> real_of_int k + 1" using f2 by simp
  moreover have "real_of_int k + 1 \<le> 2 ^ 53"
  proof -
    have "k + 1 \<le> 2 ^ 53" using \<open>k \<le> N\<close> N(2) by linarith
    then have "real_of_int (k + 1) \<le> real_of_int (2 ^ 53)" by (simp only: of_int_le_iff)
    then show ?thesis by (simp only: of_int_power of_int_numeral of_int_add of_int_1)
  qed
  ultimately have "\<bar>round_double q\<bar> \<le> 2 ^ 53" by linarith
  then show ?thesis using c1 c2 by (simp only: q_def)
qed

lemma ceil_div_exact:
  assumes "0 \<le> N" "N < 2 ^ 53" and "0 < n" "n < 2 ^ 53"
  shows "ceil_div N n = Inr \<lceil>real_of_int N / real_of_int n\<rceil>"
proof -
  have a: "float_of_int N = Inr (real_of_int N)"
    using assms(1,2) by (rule float_of_int_exact)
  have b: "float_of_int n = Inr (real_of_int n)"
    using assms(3,4) by (intro float_of_int_exact) simp_all
  have d: "float_truediv (real_of_int N) n = Inr (round_double (real_of_int N / real_of_int n))"
    using assms(3) by (simp add: float_truediv_def b)
  have "(2::real) ^ 53 < 2 ^ 1024" by (rule power_strict_increasing) simp_all
  then have "\<bar>round_double (real_of_int N / real_of_int n)\<bar> < 2 ^ 1024"
    by (rule le_less_trans [OF conjunct2 [OF round_quotient_ceiling [OF assms]]])
  then have "\<not> 2 ^ 1024 \<le> \<bar>round_double (real_of_int N / real_of_int n)\<bar>"
    by (simp only: not_le)
  then have "math_ceil (round_double (real_of_int N / real_of_int n))
      = Inr \<lceil>real_of_int N / real_of_int n\<rceil>"
    using round_quotient_ceiling [OF assms] by (simp only: math_ceil_def if_False)
  then show ?thesis by (simp add: ceil_div_def a d)
qed

subsection \<open>Rounding at and above \<open>2^53\<close>\<close>








lemma ceil_div_100_30: "ceil_div 100 30 = Inr 4"
  using ceil_div_exact [of 100 30] by simp

section \<open>Slices of a tile\<close>

lemma slice_of_Inl_iff: "slice_of i N n = Inl e \<longleftrightarrow> e = IndexError \<and> N \<le> i * n"
  by (auto simp add: slice_of_def Let_def)

lemma slice_of_Inr_iff:
  "slice_of i N n = Inr s \<longleftrightarrow> i * n < N \<and> s = Slice (i * n) (min (i * n + n) N)"
  by (auto simp add: slice_of_def Let_def)

lemma idx_to_slice_eq:
  assumes "shape (tiles_gbox t) = (H, W)" and "tiles_tile_shape t = (th, tw)"
  shows "idx_to_slice t (r, c) =
     (if H \<le> r * th \<or> W \<le> c * tw then Inl IndexError
      else Inr (Slice (r * th) (min (r * th + th) H), Slice (c * tw) (min (c * tw + tw) W)))"
  using assms by (simp add: idx_to_slice_def slice_of_def Let_def)

subsection \<open>The example partitioner\<close>

lemma example_init: "GeoboxTiles_init example_box (30, 30) = Inr example_tiles"
  by (simp add: GeoboxTiles_init_def example_box_def example_tiles_def shape_def
      GeoBox_init_def ceil_div_100_30)

lemma example_shape: "shape (tiles_gbox example_tiles) = (100, 100)"
  by (simp add: example_tiles_def example_box_def shape_def GeoBox_init_def)

lemma example_tile_shape: "tiles_tile_shape example_tiles = (30, 30)"
  by (simp add: example_tiles_def)

lemma example_cache: "tiles_cache example_tiles = Map.empty"
  by (simp add: example_tiles_def)

lemma example_gbox: "tiles_gbox example_tiles = example_box"
  by (simp add: example_tiles_def)



lemmas example_idx_to_slice = idx_to_slice_eq [OF example_shape example_tile_shape]

subsection \<open>Ceiling division and the start of a tile\<close>




subsection \<open>The constructor\<close>


lemma init_cache_empty:
  "GeoboxTiles_init box tshape = Inr t0 \<Longrightarrow> tiles_cache t0 = Map.empty"
  by (auto simp add: GeoboxTiles_init_def Let_def split: prod.splits sum.splits)

subsection \<open>Valid indices, pixels and extents of a tile\<close>






subsection \<open>Lookups keep the source box, the shapes and a fresh cache\<close>

lemma getitem_fields:
  "tiles_gbox (snd (getitem t idx)) = tiles_gbox t"
  "tiles_tile_shape (snd (getitem t idx)) = tiles_tile_shape t"
  "tiles_shape (snd (getitem t idx)) = tiles_shape t"
  by (simp_all add: getitem_def setdefault_def split: option.splits sum.splits)

lemma lookups_fields:
  "tiles_gbox (lookups t idxs) = tiles_gbox t
   \<and> tiles_tile_shape (lookups t idxs) = tiles_tile_shape t
   \<and> tiles_shape (lookups t idxs) = tiles_shape t"
  by (induction idxs arbitrary: t) (simp_all add: getitem_fields)

lemma idx_to_slice_cong:
  assumes "tiles_gbox t' = tiles_gbox t" and "tiles_tile_shape t' = tiles_tile_shape t"
  shows "idx_to_slice t' idx = idx_to_slice t idx"
  using assms by (simp add: idx_to_slice_def)

lemma recompute_cong:
  assumes "tiles_gbox t' = tiles_gbox t" and "tiles_tile_shape t' = tiles_tile_shape t"
  shows "recompute t' idx = recompute t idx"
  unfolding recompute_def idx_to_slice_cong [OF assms] assms(1) ..

lemma getitem_cache:
  "tiles_cache (snd (getitem t idx)) i = Some g \<Longrightarrow>
     tiles_cache t i = Some g \<or> (i = idx \<and> recompute t idx = Inr g)"
  by (auto simp add: getitem_def setdefault_def recompute_def split: option.splits sum.splits if_splits)

lemma getitem_keeps_cache_fresh:
  assumes "\<And>i g. tiles_cache t i = Some g \<Longrightarrow> recompute t i = Inr g"
    and "tiles_cache (snd (getitem t idx)) i = Some g"
  shows "recompute (snd (getitem t idx)) i = Inr g"
proof -
  have "recompute (snd (getitem t idx)) i = recompute t i"
    by (rule recompute_cong) (simp_all add: getitem_fields)
  moreover have "recompute t i = Inr g"
    using getitem_cache [OF assms(2)] assms(1) by blast
  ultimately show ?thesis by simp
qed

lemma lookups_keep_cache_fresh:
  assumes "\<And>i g. tiles_cache t i = Some g \<Longrightarrow> recompute t i = Inr g"
    and "tiles_cache (lookups t idxs) i = Some g"
  shows "recompute (lookups t idxs) i = Inr g"
  using assms
proof (induction idxs arbitrary: t)
  case Nil
  then show ?case by simp
next
  case (Cons idx rest)
  have "\<And>j h. tiles_cache (snd (getitem t idx)) j = Some h \<Longrightarrow>
          recompute (snd (getitem t idx)) j = Inr h"
    using Cons.prems(1) by (rule getitem_keeps_cache_fresh)
  then show ?case using Cons.IH Cons.prems(2) by simp
qed

lemma getitem_hit:
  "tiles_cache t idx = Some g \<Longrightarrow> getitem t idx = (Inr g, t)"
  by (simp add: getitem_def)

lemma getitem_result_cached:
  "getitem t idx = (Inr g, t') \<Longrightarrow> tiles_cache t' idx = Some g"
  by (auto simp add: getitem_def setdefault_def split: option.splits sum.splits)

section \<open>Properties of the tile partitioner\<close>

text \<open>
  C1. The claim: a lookup with a negative component, or with a component at or beyond the
  grid shape, raises \<open>IndexError\<close>. The code at a negative index: on the (100, 100) box with
  (30, 30) tiles, whose grid shape is (4, 4), the index (-1, 0) passes the only test of
  \<open>_slice\<close> (\<open>-30 >= 100\<close> is false), so \<open>_idx_to_slice\<close> returns the slices (-30, 0) and
  (0, 30) and the lookup returns a grid box instead of raising.
\<close>

theorem negative_index_not_rejected:
  "GeoboxTiles_init example_box (30, 30) = Inr example_tiles
   \<and> tiles_shape example_tiles = (4, 4)
   \<and> idx_to_slice example_tiles (- 1, 0) = Inr (Slice (- 30) 0, Slice 0 30)
   \<and> fst (getitem example_tiles (- 1, 0)) =
       Inr (GeoBox_init 30 30 (Affine 2 0 10 0 (- 2) 110) ())"
proof (intro conjI)
  show "GeoboxTiles_init example_box (30, 30) = Inr example_tiles"
    by (rule example_init)
  show "tiles_shape example_tiles = (4, 4)"
    by (simp add: example_tiles_def)
  show s: "idx_to_slice example_tiles (- 1, 0) = Inr (Slice (- 30) 0, Slice 0 30)"
    by (simp add: example_idx_to_slice)
  show "fst (getitem example_tiles (- 1, 0)) =
       Inr (GeoBox_init 30 30 (Affine 2 0 10 0 (- 2) 110) ())"
    by (simp add: getitem_def example_cache s setdefault_def example_gbox example_box_def
        GeoBox_init_def times_Affine_def Affine_translation_def)
qed

text \<open>
  C10. A lookup that fails leaves the partitioner as it was: the error is \<open>IndexError\<close>, it is
  raised before any write to the cache, the cache after the call is the cache before it, and
  it holds no entry for the failing index.
\<close>

theorem failed_lookup_state_unchanged:
  assumes "getitem t idx = (Inl e, t')"
  shows "t' = t \<and> e = IndexError \<and> tiles_cache t' = tiles_cache t \<and> tiles_cache t' idx = None"
proof (cases "tiles_cache t idx")
  case None
  show ?thesis
  proof (cases "idx_to_slice t idx")
    case (Inl e')
    have "e' = IndexError"
      using Inl by (cases idx)
        (auto simp add: idx_to_slice_def Let_def slice_of_Inl_iff split: prod.splits sum.splits)
    with assms None Inl show ?thesis by (simp add: getitem_def)
  next
    case (Inr roi)
    with assms None show ?thesis
      by (simp add: getitem_def setdefault_def)
  qed
next
  case (Some g)
  with assms show ?thesis by (simp add: getitem_def)
qed

theorem failed_lookup_state_unchanged_witness:
  "getitem example_tiles (4, 0) = (Inl IndexError, example_tiles)
   \<and> tiles_cache example_tiles (4, 0) = None"
proof -
  have h: "getitem example_tiles (4, 0) = (Inl IndexError, example_tiles)"
    by (simp add: getitem_def example_cache example_idx_to_slice)
  from failed_lookup_state_unchanged [OF h] h show ?thesis by simp
qed

text \<open>
  C2. Start from a freshly constructed partitioner and perform any sequence of lookups,
  failed ones included. Then every entry of the cache is the grid box recomputed fresh from
  the source box and the slices of its index; and a lookup that returns a grid box returns
  that fresh box, leaves it in the cache, and a second lookup of the same index returns the
  very same box from the cache without changing the partitioner.
\<close>

theorem cache_invariant:
  assumes "GeoboxTiles_init box tshape = Inr t0" and "t = lookups t0 idxs"
  shows "(\<forall>i g. tiles_cache t i = Some g \<longrightarrow> recompute t0 i = Inr g)
       \<and> (\<forall>g t'. getitem t idx = (Inr g, t') \<longrightarrow>
            recompute t0 idx = Inr g \<and> tiles_cache t' idx = Some g
            \<and> getitem t' idx = (Inr g, t'))"
proof (intro conjI allI impI)
  have same: "recompute t i = recompute t0 i" for i
    unfolding assms(2) by (rule recompute_cong) (simp_all add: lookups_fields)
  have empty: "recompute t0 i = Inr g" if "tiles_cache t0 i = Some g" for i g
    using that init_cache_empty [OF assms(1)] by simp
  have inv: "recompute t i = Inr g" if "tiles_cache t i = Some g" for i g
    using that unfolding assms(2) by (rule lookups_keep_cache_fresh [rotated]) (rule empty)
  {
    fix i g
    assume "tiles_cache t i = Some g"
    then show "recompute t0 i = Inr g"
      using inv same by simp
  }
  {
    fix g t'
    assume g: "getitem t idx = (Inr g, t')"
    show c: "tiles_cache t' idx = Some g" using g by (rule getitem_result_cached)
    have t': "snd (getitem t idx) = t'" using g by simp
    have "tiles_cache (snd (getitem t idx)) idx = Some g" using c t' by simp
    then have "recompute (snd (getitem t idx)) idx = Inr g"
      by (rule getitem_keeps_cache_fresh [rotated]) (rule inv)
    moreover have "recompute (snd (getitem t idx)) idx = recompute t idx"
      by (rule recompute_cong) (simp_all add: getitem_fields)
    ultimately show "recompute t0 idx = Inr g" using same by simp
    show "getitem t' idx = (Inr g, t')" using c by (rule getitem_hit)
  }
qed

theorem cache_invariant_witness:
  "\<exists>g t'. getitem (lookups example_tiles [(0, 0), (4, 0)]) (0, 0) = (Inr g, t')
     \<and> recompute example_tiles (0, 0) = Inr g
     \<and> tiles_cache t' (0, 0) = Some g
     \<and> getitem t' (0, 0) = (Inr g, t')
     \<and> g = GeoBox_init 30 30 (Affine 2 0 10 0 (- 2) 50) ()"
proof -
  define g where "g = GeoBox_init 30 30 (Affine 2 0 10 0 (- 2) 50) ()"
  define t1 where "t1 = example_tiles\<lparr>tiles_cache := [(0, 0) \<mapsto> g]\<rparr>"
  have sub: "GeoBox_getitem example_box (Slice 0 30, Slice 0 30) = g"
    by (simp add: g_def example_box_def GeoBox_init_def times_Affine_def Affine_translation_def)
  have s1: "getitem example_tiles (0, 0) = (Inr g, t1)"
    by (simp add: getitem_def example_cache example_idx_to_slice setdefault_def example_gbox
        sub t1_def del: GeoBox_getitem.simps)
  have sh1: "shape (tiles_gbox t1) = (100, 100)" and ts1: "tiles_tile_shape t1 = (30, 30)"
    by (simp_all add: t1_def example_shape example_tile_shape)
  have c1: "tiles_cache t1 (4, 0) = None" "tiles_cache t1 (0, 0) = Some g"
    by (simp_all add: t1_def)
  have s2: "getitem t1 (4, 0) = (Inl IndexError, t1)"
    by (simp add: getitem_def c1 idx_to_slice_eq [OF sh1 ts1])
  have s3: "getitem t1 (0, 0) = (Inr g, t1)"
    by (simp add: getitem_def c1)
  have l: "lookups example_tiles [(0, 0), (4, 0)] = t1"
    by (simp add: s1 s2)
  have look: "getitem (lookups example_tiles [(0, 0), (4, 0)]) (0, 0) = (Inr g, t1)"
    by (simp only: l s3)
  from cache_invariant [OF example_init refl, of "[(0, 0), (4, 0)]" "(0, 0)"] look
  have "recompute example_tiles (0, 0) = Inr g \<and> tiles_cache t1 (0, 0) = Some g
            \<and> getitem t1 (0, 0) = (Inr g, t1)"
    by blast
  with look show ?thesis unfolding g_def [symmetric] by blast
qed




text \<open>
  C4. For every partitioner and index (r, c), \<open>_idx_to_slice\<close> takes start = index * tile
  on each axis, raises \<open>IndexError\<close> exactly when a start is at or beyond the extent of the
  source box on its axis, and otherwise returns the slices from start to
  min(start + tile, extent). So a tile that fits has exactly the tile extent, a tile at the
  boundary is cut at the source extent, no slice goes beyond the source box and none
  reaches into the next tile.
\<close>

theorem idx_to_slice_clipping:
  assumes "shape (tiles_gbox t) = (H, W)" and "tiles_tile_shape t = (th, tw)"
  shows "idx_to_slice t (r, c) =
           (if H \<le> r * th \<or> W \<le> c * tw then Inl IndexError
            else Inr (Slice (r * th) (min (r * th + th) H),
                      Slice (c * tw) (min (c * tw + tw) W)))
       \<and> (\<forall>r0 r1 c0 c1. idx_to_slice t (r, c) = Inr (Slice r0 r1, Slice c0 c1) \<longrightarrow>
            r1 - r0 = (if r * th + th \<le> H then th else H - r * th)
          \<and> c1 - c0 = (if c * tw + tw \<le> W then tw else W - c * tw)
          \<and> r1 \<le> H \<and> c1 \<le> W
          \<and> r1 \<le> (r + 1) * th \<and> c1 \<le> (c + 1) * tw)"
  by (auto simp add: idx_to_slice_eq [OF assms] algebra_simps)

theorem idx_to_slice_clipping_witness:
  "idx_to_slice example_tiles (3, 3) = Inr (Slice 90 100, Slice 90 100)
   \<and> idx_to_slice example_tiles (0, 0) = Inr (Slice 0 30, Slice 0 30)
   \<and> idx_to_slice example_tiles (4, 0) = Inl IndexError"
  using idx_to_slice_clipping [OF example_shape example_tile_shape, of 3 3]
    idx_to_slice_clipping [OF example_shape example_tile_shape, of 0 0]
    idx_to_slice_clipping [OF example_shape example_tile_shape, of 4 0]
  by simp




end
